theory Spec2Isabelle
  imports Main "HOL-Library.Multiset" "HOL-Library.Char_ord" "HOL-Library.List_Lexorder"
    "HOL-Library.Product_Lexorder"
begin

section \<open>Text, character classes and the pattern matcher\<close>

text \<open>
  A Python \<open>str\<close> is modelled as a \<open>string\<close> holding one \<open>char\<close> per code point, for
  the code points below 256. The character classes are the ones of Python's \<open>re\<close> module
  on \<open>str\<close> patterns, restricted to these code points: \<open>\s\<close> (also the class that
  \<open>str.strip()\<close> removes), \<open>\d\<close> and \<open>\w\<close>.
\<close>

definition code :: "char \<Rightarrow> nat" where
  "code c = of_char c"

definition is_space :: "char \<Rightarrow> bool" where
  "is_space c = (let n = code c in
     (9 \<le> n \<and> n \<le> 13) \<or> (28 \<le> n \<and> n \<le> 32) \<or> n = 133 \<or> n = 160)"

definition is_digit :: "char \<Rightarrow> bool" where
  "is_digit c = (let n = code c in 48 \<le> n \<and> n \<le> 57)"

definition is_word :: "char \<Rightarrow> bool" where
  "is_word c = (let n = code c in
     (48 \<le> n \<and> n \<le> 57) \<or> (65 \<le> n \<and> n \<le> 90) \<or> n = 95 \<or> (97 \<le> n \<and> n \<le> 122) \<or>
     n = 170 \<or> n = 178 \<or> n = 179 \<or> n = 181 \<or> n = 185 \<or> n = 186 \<or>
     (188 \<le> n \<and> n \<le> 190) \<or> (192 \<le> n \<and> n \<le> 214) \<or> (216 \<le> n \<and> n \<le> 246) \<or>
     248 \<le> n)"

text \<open>\<open>s.strip()\<close>: leading and trailing whitespace removed.\<close>

definition strip :: "string \<Rightarrow> string" where
  "strip s = rev (dropWhile is_space (rev (dropWhile is_space s)))"

text \<open>
  The fragment of regular expressions that the two patterns of the program use. Repetition
  is only ever applied to a character class (\<open>[...]+\<close>, \<open>\s*\<close>, \<open>.+\<close>), so \<open>Rep p n\<close> is
  the class \<open>p\<close> repeated at least \<open>n\<close> times, greedily.
\<close>

datatype regex =
    Lit string
  | Cls "char \<Rightarrow> bool"
  | Rep "char \<Rightarrow> bool" nat
  | Seq regex regex
  | Alt regex regex
  | Opt regex
  | Grp nat regex

type_synonym groups = "nat \<Rightarrow> string option"

text \<open>
  \<open>greedy lo i s k\<close> tries to continue after the first \<open>i\<close> characters of \<open>s\<close>, then after
  \<open>i - 1\<close>, and so on down to \<open>lo\<close>: the order in which a backtracking matcher gives back
  the characters of a greedy repetition.
\<close>

primrec greedy :: "nat \<Rightarrow> nat \<Rightarrow> string \<Rightarrow> (string \<Rightarrow> 'a option) \<Rightarrow> 'a option" where
  "greedy lo 0 s k = (if lo = 0 then k s else None)"
| "greedy lo (Suc i) s k =
     (if Suc i < lo then None
      else case k (drop (Suc i) s) of
             Some r \<Rightarrow> Some r
           | None \<Rightarrow> greedy lo i s k)"

text \<open>
  The backtracking matcher, in continuation-passing style: \<open>rmatch r s g k\<close> matches \<open>r\<close>
  at the front of \<open>s\<close> and hands the rest of the text and the groups captured so far to
  \<open>k\<close>; when \<open>k\<close> fails, the next alternative of \<open>r\<close> is tried. A group that takes no part
  in the match stays \<open>None\<close>, as \<open>match.group(i)\<close> does.
\<close>

fun rmatch :: "regex \<Rightarrow> string \<Rightarrow> groups \<Rightarrow> (string \<Rightarrow> groups \<Rightarrow> 'a option) \<Rightarrow> 'a option" where
  "rmatch (Lit w) s g k =
     (if take (length w) s = w then k (drop (length w) s) g else None)"
| "rmatch (Cls p) s g k =
     (case s of [] \<Rightarrow> None | c # s' \<Rightarrow> if p c then k s' g else None)"
| "rmatch (Rep p n) s g k =
     greedy n (length (takeWhile p s)) s (\<lambda>s'. k s' g)"
| "rmatch (Seq a b) s g k = rmatch a s g (\<lambda>s' g'. rmatch b s' g' k)"
| "rmatch (Alt a b) s g k =
     (case rmatch a s g k of Some r \<Rightarrow> Some r | None \<Rightarrow> rmatch b s g k)"
| "rmatch (Opt a) s g k =
     (case rmatch a s g k of Some r \<Rightarrow> Some r | None \<Rightarrow> k s g)"
| "rmatch (Grp i a) s g k =
     rmatch a s g (\<lambda>s' g'. k s' (g'(i \<mapsto> take (length s - length s') s)))"

text \<open>\<open>re.match(r, s)\<close>: a match at the start of \<open>s\<close>, which need not reach its end.\<close>

definition re_match :: "regex \<Rightarrow> string \<Rightarrow> groups option" where
  "re_match r s = rmatch r s (\<lambda>i. None) (\<lambda>s' g. Some g)"

section \<open>The version/condition splitter\<close>

definition name_char :: "char \<Rightarrow> bool" where
  "name_char c = (is_word c \<or> c = CHR ''-'')"

definition extras_char :: "char \<Rightarrow> bool" where
  "extras_char c = (c \<noteq> CHR '']'')"

definition comparator_char :: "char \<Rightarrow> bool" where
  "comparator_char c = (c \<in> set ''<>=~!'')"

definition version_char :: "char \<Rightarrow> bool" where
  "version_char c = (is_digit c \<or> is_word c \<or> c = CHR ''.'' \<or> c = CHR ''*'')"

definition any_char :: "char \<Rightarrow> bool" where
  "any_char c = (c \<noteq> CHR 0x0A)"

text \<open>
  The pattern of \<open>split_dependency\<close>:
  \<^verbatim>\<open>([\w\-]+)(?:\[[^\]]+\])?([<>=~!]\s[\d\w\.\*]+)?(;.+)?\<close>
\<close>

definition extras_part :: regex where
  "extras_part = Opt (Seq (Lit ''['') (Seq (Rep extras_char 1) (Lit '']'')))"

definition version_part :: regex where
  "version_part = Opt (Grp 2 (Seq (Cls comparator_char) (Seq (Cls is_space) (Rep version_char 1))))"

definition condition_part :: regex where
  "condition_part = Opt (Grp 3 (Seq (Lit '';'') (Rep any_char 1)))"

definition dependency_pattern :: regex where
  "dependency_pattern =
     Seq (Grp 1 (Rep name_char 1)) (Seq extras_part (Seq version_part condition_part))"

text \<open>\<open>match.group(i) or ""\<close>\<close>

definition group_or_empty :: "groups \<Rightarrow> nat \<Rightarrow> string" where
  "group_or_empty g i = (case g i of None \<Rightarrow> [] | Some v \<Rightarrow> v)"

text \<open>
  \<open>split_dependency\<close>. Group 1 is not optional in the pattern, so \<open>match.group(1)\<close> is
  always a string when there is a match.
\<close>

definition split_dependency :: "string \<Rightarrow> string \<times> string" where
  "split_dependency dep =
     (case re_match dependency_pattern (strip dep) of
        Some m \<Rightarrow>
          let package = group_or_empty m 1;
              version = strip (group_or_empty m 2);
              condition = strip (group_or_empty m 3);
              version = (if condition \<noteq> [] then strip (version @ '' '' @ condition) else version)
          in (package, if version \<noteq> [] then version else ''Unknown'')
      | None \<Rightarrow> (dep, ''Unknown''))"

text \<open>The same match, read as the triple of its three groups.\<close>

definition dependency_groups :: "string \<Rightarrow> (string option \<times> string option \<times> string option) option" where
  "dependency_groups s = map_option (\<lambda>m. (m 1, m 2, m 3)) (re_match dependency_pattern s)"

text \<open>Whether a text begins with a character of the package-name class \<open>[\w\-]\<close>.\<close>

definition starts_with_name :: "string \<Rightarrow> bool" where
  "starts_with_name s = (case s of [] \<Rightarrow> False | c # r \<Rightarrow> name_char c)"

text \<open>The apostrophe, which a string literal of the theory cannot hold.\<close>

definition apostrophe :: char where
  "apostrophe = CHR 0x27"

text \<open>The group numbers that occur in a pattern.\<close>

fun grps :: "regex \<Rightarrow> nat set" where
  "grps (Lit w) = {}"
| "grps (Cls p) = {}"
| "grps (Rep p n) = {}"
| "grps (Seq a b) = grps a \<union> grps b"
| "grps (Alt a b) = grps a \<union> grps b"
| "grps (Opt a) = grps a"
| "grps (Grp i a) = insert i (grps a)"

section \<open>Python values, exceptions and the environment\<close>

text \<open>
  Every exception that the program can meet is an \<open>Exception\<close>; \<open>message e\<close> is \<open>str(e)\<close>.
\<close>

datatype exn =
    OSError string
  | DecodeError string
  | ParseError string
  | TypeError string
  | AttributeError string
  | KeyError string
  | ImportError string


text \<open>
  The values that the TOML and YAML loaders return: strings, lists, dictionaries (in
  insertion order) and scalars. A scalar (\<open>None\<close>, a boolean, a number, a date) is not
  iterable, has no items and no methods that the program calls, so it is kept only with
  its \<open>str()\<close> rendering.
\<close>

datatype pyval =
    PStr string
  | PList "pyval list"
  | PDict "(pyval \<times> pyval) list"
  | PScalar string

text \<open>\<open>key in s\<close> on strings: \<open>key\<close> occurs in \<open>s\<close>.\<close>

fun contains :: "string \<Rightarrow> string \<Rightarrow> bool" where
  "contains key [] = (key = [])"
| "contains key (c # s) = (take (length key) (c # s) = key \<or> contains key s)"

text \<open>\<open>key in v\<close>, for a string \<open>key\<close>.\<close>

fun py_in :: "string \<Rightarrow> pyval \<Rightarrow> exn + bool" where
  "py_in key (PDict kvs) = Inr (PStr key \<in> set (map fst kvs))"
| "py_in key (PList xs) = Inr (PStr key \<in> set xs)"
| "py_in key (PStr s) = Inr (contains key s)"
| "py_in key (PScalar r) = Inl (TypeError ''argument is not iterable'')"

text \<open>\<open>v[key]\<close>, for a string \<open>key\<close>.\<close>

fun py_getitem :: "pyval \<Rightarrow> string \<Rightarrow> exn + pyval" where
  "py_getitem (PDict kvs) key =
     (case map_of kvs (PStr key) of None \<Rightarrow> Inl (KeyError key) | Some x \<Rightarrow> Inr x)"
| "py_getitem (PList xs) key = Inl (TypeError ''list indices must be integers'')"
| "py_getitem (PStr s) key = Inl (TypeError ''string indices must be integers'')"
| "py_getitem (PScalar r) key = Inl (TypeError ''object is not subscriptable'')"

text \<open>\<open>v.items()\<close>\<close>

fun py_items :: "pyval \<Rightarrow> exn + (pyval \<times> pyval) list" where
  "py_items (PDict kvs) = Inr kvs"
| "py_items v = Inl (AttributeError ''items'')"

text \<open>\<open>v.get(key, default)\<close>\<close>

fun py_get :: "pyval \<Rightarrow> string \<Rightarrow> pyval \<Rightarrow> exn + pyval" where
  "py_get (PDict kvs) key d =
     Inr (case map_of kvs (PStr key) of None \<Rightarrow> d | Some x \<Rightarrow> x)"
| "py_get v key d = Inl (AttributeError ''get'')"

text \<open>\<open>for x in v\<close>: the elements of a list, the characters of a string, the keys of a dictionary.\<close>

fun py_iter :: "pyval \<Rightarrow> exn + pyval list" where
  "py_iter (PList xs) = Inr xs"
| "py_iter (PStr s) = Inr (map (\<lambda>c. PStr [c]) s)"
| "py_iter (PDict kvs) = Inr (map fst kvs)"
| "py_iter (PScalar r) = Inl (TypeError ''object is not iterable'')"

text \<open>
  A file as the program sees it: it cannot be opened, or it yields its lines (each with its
  line end) and then, possibly, a read error such as an undecodable byte.
\<close>

datatype pyfile =
    Unopenable exn
  | Readable "string list" "exn option"

text \<open>\<open>f.read()\<close>\<close>

fun read_text :: "pyfile \<Rightarrow> exn + string" where
  "read_text (Readable ls None) = Inr (concat ls)"
| "read_text (Readable ls (Some e)) = Inl e"
| "read_text (Unopenable e) = Inl e"

text \<open>
  What the program calls \<open>toml.load\<close> on: a path string, or a file that it has opened in
  text mode, of which the text is kept.
\<close>

datatype toml_source = Path string | Text string

text \<open>
  \<open>toml\<close> is the module \<open>tomli\<close> (\<open>import tomli as toml\<close>). Its \<open>load\<close> takes a file opened
  in binary mode: it calls \<open>read()\<close> on its argument and decodes the bytes. A path string has
  no \<open>read\<close>, which is an \<open>AttributeError\<close>; a file opened in text mode yields text, which
  cannot be decoded, and \<open>load\<close> raises a \<open>TypeError\<close>. So on both kinds of argument that
  the program passes, the call raises and no document is returned.
\<close>

fun toml_load :: "toml_source \<Rightarrow> exn + pyval" where
  "toml_load (Path path) = Inl (AttributeError ''str object has no attribute read'')"
| "toml_load (Text text) = Inl (TypeError ''File must be opened in binary mode'')"

text \<open>
  Syntax trees, as far as the program looks at them. \<open>Import\<close> and \<open>ImportFrom\<close> hold the
  names of their aliases and the line number; \<open>ImportFrom\<close> holds the module, which is
  \<open>None\<close> for \<open>from . import x\<close>. \<open>Attribute\<close> holds the value, the attribute name and the
  line number. \<open>Call\<close> holds the function, the arguments and the keyword nodes.
  \<open>Node\<close> is any other node, with its child nodes in field order.
\<close>

datatype ast =
    Import "string list" int
  | ImportFrom "string option" "string list" int
  | Attribute ast string int
  | Name string
  | Call ast "ast list" "ast list"
  | Keyword "string option" ast
  | ListExpr "ast list"
  | StrConst string
  | Node "ast list"

text \<open>
  The environment of a run: the directory tree as \<open>os.walk\<close> lists it (each directory with
  its file names, in walk order), the path functions, the files, the YAML loader and the
  syntax-tree parser, the rendering of a list or dictionary in an f-string, and the
  interpreter's module tables. \<open>find_spec\<close> gives \<open>Inr True\<close> when a spec is found and \<open>Inr False\<close> when the
  result is \<open>None\<close>.
\<close>

record env =
  walk :: "string \<Rightarrow> (string \<times> string list) list"
  join :: "string \<Rightarrow> string \<Rightarrow> string"
  normpath :: "string \<Rightarrow> string"
  files :: "string \<Rightarrow> pyfile"
  yaml_safe_load :: "string \<Rightarrow> exn + pyval"
  ast_parse :: "string \<Rightarrow> exn + ast"
  repr :: "pyval \<Rightarrow> string"
  builtin_module_names :: "string set"
  find_spec :: "string \<Rightarrow> exn + bool"

text \<open>\<open>name.endswith(suffix)\<close>\<close>

definition endswith :: "string \<Rightarrow> string \<Rightarrow> bool" where
  "endswith s suffix =
     (length suffix \<le> length s \<and> drop (length s - length suffix) s = suffix)"

section \<open>The syntax-tree usage visitor and its driver\<close>

text \<open>The two lists of the visitor, \<open>self.imports\<close> and \<open>self.usage\<close>.\<close>

record visitor =
  visitor_imports :: "(string \<times> int) list"
  visitor_usage :: "(string \<times> int) list"

text \<open>An f-string renders a module that is \<open>None\<close> as the text \<open>None\<close>.\<close>

fun format_module :: "string option \<Rightarrow> string" where
  "format_module None = ''None''"
| "format_module (Some m) = m"

text \<open>
  \<open>ImportUsageVisitor.visit\<close>: the four \<open>visit_...\<close> methods, each of which ends with
  \<open>generic_visit\<close>, and \<open>generic_visit\<close> alone for every other node. \<open>visit_all\<close> visits
  child nodes from left to right.
\<close>

fun visit :: "ast \<Rightarrow> visitor \<Rightarrow> visitor"
and visit_all :: "ast list \<Rightarrow> visitor \<Rightarrow> visitor" where
  "visit (Import names lineno) v =
     v\<lparr>visitor_imports := visitor_imports v @ map (\<lambda>name. (name, lineno)) names\<rparr>"
| "visit (ImportFrom module names lineno) v =
     v\<lparr>visitor_imports := visitor_imports v @ map (\<lambda>name. (format_module module @ ''.'' @ name, lineno)) names\<rparr>"
| "visit (Attribute val attr lineno) v =
     visit val (case val of
                  Name ident \<Rightarrow> v\<lparr>visitor_usage := visitor_usage v @ [(ident @ ''.'' @ attr, lineno)]\<rparr>
                | _ \<Rightarrow> v)"
| "visit (Call func args keywords) v = visit_all keywords (visit_all args (visit func v))"
| "visit (Name ident) v = v"
| "visit (Keyword arg val) v = visit val v"
| "visit (ListExpr elts) v = visit_all elts v"
| "visit (StrConst s) v = v"
| "visit (Node children) v = visit_all children v"
| "visit_all [] v = v"
| "visit_all (n # ns) v = visit_all ns (visit n v)"

type_synonym usage_record = "string \<times> string \<times> string \<times> int"






section \<open>The manifest parsers\<close>

type_synonym dependency = "string \<times> pyval \<times> pyval"

text \<open>
  A \<open>try\<close> block that fills the list \<open>dependencies\<close> ends with the list and, when it was
  left by an exception, the exception. \<open>attempt r deps k\<close> is one step of such a block:
  when \<open>r\<close> raises, the block ends there with the list as it stands.
\<close>

definition attempt :: "exn + 'a \<Rightarrow> 's \<Rightarrow> ('a \<Rightarrow> exn option \<times> 's) \<Rightarrow> exn option \<times> 's" where
  "attempt r deps k = (case r of Inl x \<Rightarrow> (Some x, deps) | Inr a \<Rightarrow> k a)"

text \<open>
  \<open>except Exception as e: print(...)\<close> followed by \<open>return dependencies\<close>: whatever ended
  the block, the call returns the list.
\<close>

definition except_return :: "exn option \<times> 's \<Rightarrow> exn + 's" where
  "except_return r = Inr (snd r)"

text \<open>A value inside an f-string; \<open>repr\<close> of the environment renders lists and dictionaries.\<close>

fun py_format :: "env \<Rightarrow> pyval \<Rightarrow> string" where
  "py_format e (PStr s) = s"
| "py_format e (PScalar r) = r"
| "py_format e v = repr e v"

text \<open>\<open>split_dependency(dep)\<close> on a loaded value: only a string has \<open>strip\<close>.\<close>

fun split_value :: "pyval \<Rightarrow> exn + string \<times> string" where
  "split_value (PStr s) = Inr (split_dependency s)"
| "split_value v = Inl (AttributeError ''strip'')"

text \<open>The loop over the items of one table: \<open>split_dependency(f"{package}{version}")\<close>.\<close>

definition entry_dependency :: "env \<Rightarrow> string \<Rightarrow> pyval \<times> pyval \<Rightarrow> dependency" where
  "entry_dependency e path kv =
     (case kv of (package, version) \<Rightarrow>
        (case split_dependency (py_format e package @ py_format e version) of
           (package', version') \<Rightarrow> (path, PStr package', PStr version')))"

text \<open>
  \<open>for section in [...]: if section in data: for package, version in data[section].items()\<close>,
  the loop of \<open>extract_pipfile_dependencies\<close> and of the poetry branch of
  \<open>extract_pyproject_dependencies\<close>.
\<close>

fun section_loop :: "env \<Rightarrow> string \<Rightarrow> pyval \<Rightarrow> string list \<Rightarrow> dependency list
    \<Rightarrow> exn option \<times> dependency list" where
  "section_loop e path data [] deps = (None, deps)"
| "section_loop e path data (section # rest) deps =
     attempt (py_in section data) deps (\<lambda>present.
       if present then
         attempt (py_getitem data section) deps (\<lambda>table.
           attempt (py_items table) deps (\<lambda>entries.
             section_loop e path data rest (deps @ map (entry_dependency e path) entries)))
       else section_loop e path data rest deps)"

definition extract_pipfile_dependencies :: "env \<Rightarrow> string \<Rightarrow> exn + dependency list" where
  "extract_pipfile_dependencies e pipfile_path =
     except_return
       (attempt (toml_load (Path pipfile_path)) [] (\<lambda>pipfile_data.
          section_loop e pipfile_path pipfile_data [''packages'', ''dev-packages''] []))"

text \<open>\<open>a in data and b in data[a]\<close>\<close>

definition has_nested :: "pyval \<Rightarrow> string \<Rightarrow> string \<Rightarrow> exn + bool" where
  "has_nested data a b =
     (case py_in a data of
        Inl x \<Rightarrow> Inl x
      | Inr present \<Rightarrow>
          if present then
            (case py_getitem data a of Inl x \<Rightarrow> Inl x | Inr inner \<Rightarrow> py_in b inner)
          else Inr False)"

text \<open>\<open>data[a][b]\<close>\<close>

definition get_nested :: "pyval \<Rightarrow> string \<Rightarrow> string \<Rightarrow> exn + pyval" where
  "get_nested data a b =
     (case py_getitem data a of Inl x \<Rightarrow> Inl x | Inr inner \<Rightarrow> py_getitem inner b)"

text \<open>\<open>for dep in ...: package, version = split_dependency(dep); dependencies.append(...)\<close>\<close>

fun specifier_loop :: "string \<Rightarrow> pyval list \<Rightarrow> dependency list \<Rightarrow> exn option \<times> dependency list" where
  "specifier_loop path [] deps = (None, deps)"
| "specifier_loop path (dep # rest) deps =
     attempt (split_value dep) deps (\<lambda>pv.
       specifier_loop path rest (deps @ [(path, PStr (fst pv), PStr (snd pv))]))"

text \<open>
  The two branches of \<open>extract_pyproject_dependencies\<close>, on a loaded document: the
  \<open>if\<close> on \<open>tool.poetry\<close> and the \<open>elif\<close> on \<open>project.dependencies\<close>.
\<close>

definition pyproject_branches :: "env \<Rightarrow> string \<Rightarrow> pyval \<Rightarrow> exn option \<times> dependency list" where
  "pyproject_branches e pyproject_path pyproject_data =
     attempt (has_nested pyproject_data ''tool'' ''poetry'') [] (\<lambda>poetry.
       if poetry then
         attempt (get_nested pyproject_data ''tool'' ''poetry'') [] (\<lambda>poetry_data.
           section_loop e pyproject_path poetry_data [''dependencies'', ''dev-dependencies''] [])
       else
         attempt (has_nested pyproject_data ''project'' ''dependencies'') [] (\<lambda>standard.
           if standard then
             attempt (get_nested pyproject_data ''project'' ''dependencies'') [] (\<lambda>deps.
               attempt (py_iter deps) [] (\<lambda>items.
                 specifier_loop pyproject_path items []))
           else (None, [])))"

text \<open>The \<open>try\<close> block: the load of the path, then the branches.\<close>

definition pyproject_try :: "env \<Rightarrow> string \<Rightarrow> exn option \<times> dependency list" where
  "pyproject_try e pyproject_path =
     attempt (toml_load (Path pyproject_path)) [] (\<lambda>pyproject_data.
       pyproject_branches e pyproject_path pyproject_data)"

definition extract_pyproject_dependencies :: "env \<Rightarrow> string \<Rightarrow> exn + dependency list" where
  "extract_pyproject_dependencies e pyproject_path = except_return (pyproject_try e pyproject_path)"

text \<open>\<open>with open(path) as file: data = load(file)\<close>, for a loader that reads the whole text.\<close>

definition open_and_read :: "env \<Rightarrow> string \<Rightarrow> exn + string" where
  "open_and_read e path = read_text (files e path)"

fun lock_loop :: "string \<Rightarrow> pyval list \<Rightarrow> dependency list \<Rightarrow> exn option \<times> dependency list" where
  "lock_loop path [] deps = (None, deps)"
| "lock_loop path (package # rest) deps =
     attempt (py_get package ''name'' (PStr [])) deps (\<lambda>name.
       attempt (py_get package ''version'' (PStr ''Unknown'')) deps (\<lambda>version.
         lock_loop path rest (deps @ [(path, name, version)])))"

definition extract_poetry_lock_dependencies :: "env \<Rightarrow> string \<Rightarrow> exn + dependency list" where
  "extract_poetry_lock_dependencies e poetry_lock_path =
     except_return
       (attempt (open_and_read e poetry_lock_path) [] (\<lambda>text.
          attempt (toml_load (Text text)) [] (\<lambda>poetry_lock_data.
            attempt (py_get poetry_lock_data ''package'' (PList [])) [] (\<lambda>packages.
              attempt (py_iter packages) [] (\<lambda>items.
                lock_loop poetry_lock_path items [])))))"

text \<open>
  The loop of \<open>get_conda_dependencies\<close>: a string is split, a dictionary with the key
  \<open>pip\<close> gives the specifiers under that key, anything else is passed over.
\<close>

fun conda_loop :: "string \<Rightarrow> pyval list \<Rightarrow> dependency list \<Rightarrow> exn option \<times> dependency list" where
  "conda_loop env_file [] deps = (None, deps)"
| "conda_loop env_file (dep # rest) deps =
     (case dep of
        PStr s \<Rightarrow>
          conda_loop env_file rest
            (deps @ [(env_file, PStr (fst (split_dependency s)), PStr (snd (split_dependency s)))])
      | PDict kvs \<Rightarrow>
          attempt (py_in ''pip'' dep) deps (\<lambda>present.
            if present then
              attempt (py_getitem dep ''pip'') deps (\<lambda>pip.
                attempt (py_iter pip) deps (\<lambda>pip_deps.
                  (case specifier_loop env_file pip_deps deps of
                     (None, deps') \<Rightarrow> conda_loop env_file rest deps'
                   | (Some x, deps') \<Rightarrow> (Some x, deps'))))
            else conda_loop env_file rest deps)
      | _ \<Rightarrow> conda_loop env_file rest deps)"

definition get_conda_dependencies :: "env \<Rightarrow> string \<Rightarrow> exn + dependency list" where
  "get_conda_dependencies e env_file =
     except_return
       (attempt (open_and_read e env_file) [] (\<lambda>text.
          attempt (yaml_safe_load e text) [] (\<lambda>env_data.
            attempt (py_get env_data ''dependencies'' (PList [])) [] (\<lambda>deps.
              attempt (py_iter deps) [] (\<lambda>items.
                conda_loop env_file items [])))))"

text \<open>
  \<open>package, *version = line.split("==")\<close>: the text before the first \<open>==\<close>, and the list
  of the pieces after it. \<open>cur\<close> is the piece read so far.
\<close>

fun split_eq :: "string \<Rightarrow> string \<Rightarrow> string \<times> string list" where
  "split_eq cur (a # b # s) =
     (if a = CHR ''='' \<and> b = CHR ''=''
      then (cur, fst (split_eq [] s) # snd (split_eq [] s))
      else split_eq (cur @ [a]) (b # s))"
| "split_eq cur s = (cur @ s, [])"

text \<open>\<open>line.startswith("#")\<close>\<close>

definition is_comment :: "string \<Rightarrow> bool" where
  "is_comment line = (case line of [] \<Rightarrow> False | c # r \<Rightarrow> c = CHR ''#'')"

fun pip_loop :: "string \<Rightarrow> string list \<Rightarrow> dependency list \<Rightarrow> dependency list" where
  "pip_loop requirements_file [] deps = deps"
| "pip_loop requirements_file (line # rest) deps =
     (let line' = strip line in
      if line' \<noteq> [] \<and> \<not> is_comment line' then
        (case split_eq [] line' of
           (package, version) \<Rightarrow>
             pip_loop requirements_file rest
               (deps @ [(requirements_file, PStr (strip package),
                         PStr (case version of [] \<Rightarrow> ''Unknown'' | v # vs \<Rightarrow> strip v))]))
      else pip_loop requirements_file rest deps)"

text \<open>
  \<open>get_pip_dependencies\<close>: the lines that the file yields are handled one by one; a read
  error after them ends the block with the list as it stands.
\<close>

definition get_pip_dependencies :: "env \<Rightarrow> string \<Rightarrow> exn + dependency list" where
  "get_pip_dependencies e requirements_file =
     except_return
       (case files e requirements_file of
          Unopenable x \<Rightarrow> (Some x, [])
        | Readable ls err \<Rightarrow> (err, pip_loop requirements_file ls []))"

text \<open>
  \<open>ast.iter_child_nodes\<close>, in field order. The alias nodes of an import and the context
  node of an attribute have no children and are of no kind the program looks for, so they
  are left out.
\<close>

fun child_nodes :: "ast \<Rightarrow> ast list" where
  "child_nodes (Import names lineno) = []"
| "child_nodes (ImportFrom module names lineno) = []"
| "child_nodes (Attribute val attr lineno) = [val]"
| "child_nodes (Name ident) = []"
| "child_nodes (Call func args keywords) = func # args @ keywords"
| "child_nodes (Keyword arg val) = [val]"
| "child_nodes (ListExpr elts) = elts"
| "child_nodes (StrConst s) = []"
| "child_nodes (Node children) = children"

text \<open>\<open>ast.walk\<close>: breadth first, from a queue of nodes still to yield.\<close>

function ast_walk :: "ast list \<Rightarrow> ast list" where
  "ast_walk [] = []"
| "ast_walk (node # todo) = node # ast_walk (todo @ child_nodes node)"
  by pat_completeness auto

lemma size_child_nodes: "sum_list (map (\<lambda>c. Suc (size c)) (child_nodes n)) \<le> size n"
proof -
  have le: "sum_list (map (\<lambda>c. Suc (size c)) xs) \<le> size_list size xs" for xs :: "ast list"
    by (induction xs) auto
  show ?thesis
  proof (cases n)
    case (Call f args kws)
    then show ?thesis using le[of args] le[of kws] by simp
  next
    case (ListExpr es)
    then show ?thesis using le[of es] by simp
  next
    case (Node cs)
    then show ?thesis using le[of cs] by simp
  qed auto
qed

termination ast_walk
proof (relation "measure (\<lambda>todo. sum_list (map (\<lambda>c. Suc (size c)) todo))")
  show "wf (measure (\<lambda>todo. sum_list (map (\<lambda>c. Suc (size c)) todo)))" by simp
next
  fix node :: ast and todo :: "ast list"
  show "(todo @ child_nodes node, node # todo)
          \<in> measure (\<lambda>todo. sum_list (map (\<lambda>c. Suc (size c)) todo))"
    using size_child_nodes[of node] by simp
qed

text \<open>
  The keywords of one \<open>setup(...)\<close> call: the string literals of every
  \<open>install_requires=[...]\<close> among them.
\<close>

fun keyword_requires :: "ast list \<Rightarrow> string list" where
  "keyword_requires [] = []"
| "keyword_requires (Keyword (Some arg) (ListExpr elts) # rest) =
     (if arg = ''install_requires''
      then concat (map (\<lambda>item. case item of StrConst s \<Rightarrow> [s] | _ \<Rightarrow> []) elts)
      else []) @ keyword_requires rest"
| "keyword_requires (keyword # rest) = keyword_requires rest"

text \<open>The loop over the walked nodes: the calls of the name \<open>setup\<close>.\<close>

fun install_requires :: "ast list \<Rightarrow> string list" where
  "install_requires [] = []"
| "install_requires (Call (Name ident) args keywords # rest) =
     (if ident = ''setup'' then keyword_requires keywords else []) @ install_requires rest"
| "install_requires (node # rest) = install_requires rest"

text \<open>\<open>parse_setup_py\<close> has no \<open>try\<close>: what \<open>open\<close>, \<open>read\<close> or \<open>ast.parse\<close> raise leaves the call.\<close>

definition parse_setup_py :: "env \<Rightarrow> string \<Rightarrow> exn + dependency list" where
  "parse_setup_py e file_path =
     (case files e file_path of
        Unopenable x \<Rightarrow> Inl x
      | Readable ls err \<Rightarrow>
          (case read_text (Readable ls err) of
             Inl x \<Rightarrow> Inl x
           | Inr setup_content \<Rightarrow>
               (case ast_parse e setup_content of
                  Inl x \<Rightarrow> Inl x
                | Inr setup_ast \<Rightarrow>
                    Inr (map (\<lambda>dep. (file_path, PStr (fst (split_dependency dep)),
                                       PStr (snd (split_dependency dep))))
                             (install_requires (ast_walk [setup_ast]))))))"

section \<open>The inline-import scanner\<close>

text \<open>\<open>module_name in sys.builtin_module_names or find_spec(module_name) is None\<close>\<close>

definition is_builtin_module :: "env \<Rightarrow> string \<Rightarrow> exn + bool" where
  "is_builtin_module e module_name =
     (if module_name \<in> builtin_module_names e then Inr True
      else case find_spec e module_name of Inl x \<Rightarrow> Inl x | Inr found \<Rightarrow> Inr (\<not> found))"

definition module_char :: "char \<Rightarrow> bool" where
  "module_char c = (is_word c \<or> is_digit c \<or> c = CHR ''_'' \<or> c = CHR ''.'')"

text \<open>
  The pattern of the scanner, \<^verbatim>\<open>^\s*(?:import|from)\s+([\w\d_\.]+)\<close>; it is matched at the
  start of the line, where \<open>^\<close> holds.
\<close>

definition import_pattern :: regex where
  "import_pattern =
     Seq (Rep is_space 0)
       (Seq (Alt (Lit ''import'') (Lit ''from''))
         (Seq (Rep is_space 1) (Grp 1 (Rep module_char 1))))"

text \<open>\<open>name.split(".")[0]\<close>\<close>

definition first_segment :: "string \<Rightarrow> string" where
  "first_segment name = takeWhile (\<lambda>c. c \<noteq> CHR ''.'') name"

type_synonym inline_dependency = "string \<times> string \<times> string"

text \<open>The lines of one opened file. An exception of the probe ends the file.\<close>

fun scan_lines :: "env \<Rightarrow> string \<Rightarrow> string \<Rightarrow> string list \<Rightarrow> inline_dependency set
    \<Rightarrow> exn option \<times> inline_dependency set" where
  "scan_lines e file_path python_version [] deps = (None, deps)"
| "scan_lines e file_path python_version (line # rest) deps =
     (case re_match import_pattern line of
        None \<Rightarrow> scan_lines e file_path python_version rest deps
      | Some m \<Rightarrow>
          let module = first_segment (group_or_empty m 1) in
          attempt (is_builtin_module e module) deps (\<lambda>builtin.
            scan_lines e file_path python_version rest
              (if \<not> builtin then insert (file_path, module, python_version) deps else deps)))"

text \<open>
  One file name of the inner loop. Whatever \<open>open\<close>, the reading or the probe raise is
  printed, and the loop goes on with the set as it stands.
\<close>

definition scan_file :: "env \<Rightarrow> string \<Rightarrow> string \<Rightarrow> string \<Rightarrow> inline_dependency set
    \<Rightarrow> inline_dependency set" where
  "scan_file e python_version root file deps =
     (if endswith file ''.py'' then
        let file_path = join e root file in
        (case files e file_path of
           Unopenable x \<Rightarrow> deps
         | Readable ls err \<Rightarrow> snd (scan_lines e file_path python_version ls deps))
      else deps)"

fun scan_files :: "env \<Rightarrow> string \<Rightarrow> string \<Rightarrow> string list \<Rightarrow> inline_dependency set
    \<Rightarrow> inline_dependency set" where
  "scan_files e python_version root [] deps = deps"
| "scan_files e python_version root (file # rest) deps =
     scan_files e python_version root rest (scan_file e python_version root file deps)"

fun scan_dirs :: "env \<Rightarrow> string \<Rightarrow> (string \<times> string list) list \<Rightarrow> inline_dependency set
    \<Rightarrow> inline_dependency set" where
  "scan_dirs e python_version [] deps = deps"
| "scan_dirs e python_version ((root, fs) # rest) deps =
     scan_dirs e python_version rest (scan_files e python_version root fs deps)"

text \<open>The set \<open>dependencies\<close> when the loops of \<open>extract_python_file_dependencies\<close> end.\<close>

definition python_file_dependencies :: "env \<Rightarrow> string \<Rightarrow> string \<Rightarrow> inline_dependency set" where
  "python_file_dependencies e project_path python_version =
     scan_dirs e python_version (walk e project_path) {}"

text \<open>
  \<open>list(dependencies)\<close> lists the set in the order of its hash table, which depends on the
  string hashes of the running interpreter. \<open>listing\<close> stands for that order in one run.
\<close>

definition extract_python_file_dependencies ::
    "env \<Rightarrow> (inline_dependency set \<Rightarrow> inline_dependency list) \<Rightarrow> string \<Rightarrow> string
     \<Rightarrow> inline_dependency list" where
  "extract_python_file_dependencies e listing project_path python_version =
     listing (python_file_dependencies e project_path python_version)"

section \<open>The dependency aggregator\<close>

fun find_in_walk :: "env \<Rightarrow> (string \<times> string list) list \<Rightarrow> string \<Rightarrow> string option" where
  "find_in_walk e [] filename = None"
| "find_in_walk e ((root, fs) # rest) filename =
     (if filename \<in> set fs then Some (join e root filename) else find_in_walk e rest filename)"

definition find_file :: "env \<Rightarrow> string \<Rightarrow> string \<Rightarrow> string option" where
  "find_file e root_path filename = find_in_walk e (walk e root_path) filename"

definition dependency_files :: "(string \<times> (env \<Rightarrow> string \<Rightarrow> exn + dependency list)) list" where
  "dependency_files =
     [(''pyproject.toml'', extract_pyproject_dependencies),
      (''poetry.lock'', extract_poetry_lock_dependencies),
      (''Pipfile'', extract_pipfile_dependencies),
      (''environment.yml'', get_conda_dependencies),
      (''requirements.txt'', get_pip_dependencies),
      (''setup.py'', parse_setup_py)]"

text \<open>
  One round of the loop over \<open>dependency_files\<close>: the records that it adds. \<open>if file_path:\<close>
  passes over a file that was not found and over an empty path; an exception of the
  extractor is printed and adds nothing.
\<close>

definition manifest_records :: "env \<Rightarrow> string \<Rightarrow> string \<times> (env \<Rightarrow> string \<Rightarrow> exn + dependency list)
    \<Rightarrow> dependency list" where
  "manifest_records e project_path entry =
     (case find_file e project_path (fst entry) of
        None \<Rightarrow> []
      | Some file_path \<Rightarrow>
          if file_path \<noteq> [] then
            (case snd entry e file_path of Inl x \<Rightarrow> [] | Inr records \<Rightarrow> records)
          else [])"

fun manifest_loop :: "env \<Rightarrow> string \<Rightarrow> (string \<times> (env \<Rightarrow> string \<Rightarrow> exn + dependency list)) list
    \<Rightarrow> dependency list \<Rightarrow> dependency list" where
  "manifest_loop e project_path [] all_dependencies = all_dependencies"
| "manifest_loop e project_path (entry # rest) all_dependencies =
     manifest_loop e project_path rest (all_dependencies @ manifest_records e project_path entry)"

text \<open>
  A triple of the inline scan as a record of \<open>all_dependencies\<close>: its module and its
  version label are strings.
\<close>

definition inline_record :: "inline_dependency \<Rightarrow> dependency" where
  "inline_record d = (case d of (file_path, module, version) \<Rightarrow> (file_path, PStr module, PStr version))"

text \<open>
  \<open>extract_project_dependencies\<close>, up to the list \<open>all_dependencies\<close> that it hands to the
  table writer.
\<close>

definition extract_project_dependencies ::
    "env \<Rightarrow> (inline_dependency set \<Rightarrow> inline_dependency list) \<Rightarrow> string \<Rightarrow> dependency list" where
  "extract_project_dependencies e listing project_path =
     manifest_loop e project_path dependency_files [] @
     map inline_record (extract_python_file_dependencies e listing project_path ''Python'')"

section \<open>Notions used to state the properties\<close>




definition line :: "usage_record \<Rightarrow> int" where
  "line r = snd (snd (snd r))"

text \<open>The nodes of a tree.\<close>

fun subnodes :: "ast \<Rightarrow> ast set" where
  "subnodes (Attribute val attr lineno) = insert (Attribute val attr lineno) (subnodes val)"
| "subnodes (Call func args keywords) =
     insert (Call func args keywords)
       (subnodes func \<union> (\<Union>a \<in> set args. subnodes a) \<union> (\<Union>k \<in> set keywords. subnodes k))"
| "subnodes (Keyword arg val) = insert (Keyword arg val) (subnodes val)"
| "subnodes (ListExpr elts) = insert (ListExpr elts) (\<Union>n \<in> set elts. subnodes n)"
| "subnodes (Node children) = insert (Node children) (\<Union>n \<in> set children. subnodes n)"
| "subnodes n = {n}"

text \<open>A listing of a set: each element once.\<close>

definition enumerates :: "('a set \<Rightarrow> 'a list) \<Rightarrow> 'a set \<Rightarrow> bool" where
  "enumerates listing S = (set (listing S) = S \<and> distinct (listing S))"

text \<open>
  What \<open>list(s)\<close> does for a set \<open>s\<close> in any run: it lists every finite set, each element
  once. The order is left open.
\<close>

definition lists_sets :: "('a set \<Rightarrow> 'a list) \<Rightarrow> bool" where
  "lists_sets listing = (\<forall>S. finite S \<longrightarrow> enumerates listing S)"

definition ascending :: "inline_dependency set \<Rightarrow> inline_dependency list" where
  "ascending S = sorted_list_of_set S"

definition descending :: "inline_dependency set \<Rightarrow> inline_dependency list" where
  "descending S = rev (sorted_list_of_set S)"

text \<open>The entries of the table under a key of a dictionary, none when the key is absent.\<close>

definition table_entries :: "(pyval \<times> pyval) list \<Rightarrow> string \<Rightarrow> (pyval \<times> pyval) list" where
  "table_entries d key = (case map_of d (PStr key) of Some (PDict entries) \<Rightarrow> entries | _ \<Rightarrow> [])"

definition absent_or_table :: "(pyval \<times> pyval) list \<Rightarrow> string \<Rightarrow> bool" where
  "absent_or_table d key =
     (case map_of d (PStr key) of None \<Rightarrow> True | Some (PDict entries) \<Rightarrow> True | _ \<Rightarrow> False)"

definition specifier_record :: "string \<Rightarrow> string \<Rightarrow> dependency" where
  "specifier_record path dep =
     (path, PStr (fst (split_dependency dep)), PStr (snd (split_dependency dep)))"

section \<open>Example projects\<close>




definition posix_join :: "string \<Rightarrow> string \<Rightarrow> string" where
  "posix_join root file = root @ ''/'' @ file"

definition no_yaml :: "string \<Rightarrow> exn + pyval" where
  "no_yaml text = Inl (ParseError ''Invalid YAML'')"

definition some_repr :: "pyval \<Rightarrow> string" where
  "some_repr v = ''{...}''"



text \<open>
  A project for the dependency extraction: \<open>app.py\<close> imports \<open>os\<close> and \<open>requests\<close>,
  \<open>requirements.txt\<close> pins \<open>flask\<close>, \<open>setup.py\<close> does not parse, and \<open>pyproject.toml\<close> has
  a poetry dependency table and a project table. In the interpreter, \<open>os\<close> is a module
  of the standard library that is found on the path and is not compiled in;
  \<open>requests\<close> is not installed.
\<close>

definition project_tree :: "string \<Rightarrow> (string \<times> string list) list" where
  "project_tree p =
     (if p = ''proj''
      then [(''proj'', [''app.py'', ''requirements.txt'', ''setup.py'', ''pyproject.toml''])]
      else [])"

definition project_files :: "string \<Rightarrow> pyfile" where
  "project_files p =
     (if p = ''proj/app.py'' then Readable [''import os\<newline>'', ''import requests\<newline>''] None
      else if p = ''proj/requirements.txt'' then Readable [''flask==2.0.1\<newline>''] None
      else if p = ''proj/setup.py'' then Readable [''setup(\<newline>''] None
      else if p = ''proj/pyproject.toml''
      then Readable [''[tool.poetry.dependencies]\<newline>'', ''[project]\<newline>''] None
      else Unopenable (OSError ''No such file or directory''))"

text \<open>
  Two documents as a TOML parser gives them, to try the branches of
  \<open>extract_pyproject_dependencies\<close> on: one with a poetry table and a standard list, one
  with the standard list alone.
\<close>

definition both_tables :: pyval where
  "both_tables =
     PDict [(PStr ''tool'', PDict [(PStr ''poetry'',
               PDict [(PStr ''dependencies'', PDict [(PStr ''requests'', PStr ''^2.31'')]),
                      (PStr ''dev-dependencies'', PDict [(PStr ''pytest'', PStr ''*'')])])]),
            (PStr ''project'', PDict [(PStr ''dependencies'', PList [PStr ''numpy= 1.26''])])]"

definition standard_only :: pyval where
  "standard_only =
     PDict [(PStr ''project'', PDict [(PStr ''dependencies'', PList [PStr ''numpy= 1.26'', PStr ''rich''])])]"

definition no_parse :: "string \<Rightarrow> exn + ast" where
  "no_parse text = Inl (ParseError ''invalid syntax'')"

definition only_os_found :: "string \<Rightarrow> exn + bool" where
  "only_os_found module_name = Inr (module_name = ''os'')"

definition all_found :: "string \<Rightarrow> exn + bool" where
  "all_found module_name = Inr True"

definition project_env :: env where
  "project_env =
     \<lparr>walk = project_tree, join = posix_join, normpath = id, files = project_files,
      yaml_safe_load = no_yaml, ast_parse = no_parse,
      repr = some_repr, builtin_module_names = {''sys'', ''builtins''},
      find_spec = only_os_found\<rparr>"

text \<open>The same project in an interpreter where \<open>requests\<close> is installed.\<close>

definition installed_env :: env where
  "installed_env = project_env\<lparr>find_spec := all_found\<rparr>"

section \<open>Properties of the pattern matcher\<close>

lemma greedy_SomeD: "greedy lo i s k = Some x \<Longrightarrow> \<exists>j. lo \<le> j \<and> j \<le> i \<and> k (drop j s) = Some x"
proof (induction i)
  case 0
  then show ?case by (auto split: if_splits)
next
  case (Suc i)
  show ?case
  proof (cases "k (drop (Suc i) s)")
    case None
    with Suc.prems have "greedy lo i s k = Some x" by (simp split: if_splits)
    from Suc.IH[OF this] show ?thesis by (meson le_SucI)
  next
    case (Some r)
    with Suc.prems have "r = x" "lo \<le> Suc i" by (auto split: if_splits)
    with Some show ?thesis by blast
  qed
qed

lemma greedy_first: "lo \<le> i \<Longrightarrow> k (drop i s) = Some x \<Longrightarrow> greedy lo i s k = Some x"
  by (cases i) auto

lemma greedy_short: "i < lo \<Longrightarrow> greedy lo i s k = None"
  by (cases i) auto

lemma rmatch_SomeD:
  "rmatch r s g k = Some x \<Longrightarrow>
     \<exists>s' g'. k s' g' = Some x \<and> (\<forall>i. i \<notin> grps r \<longrightarrow> g' i = g i)"
proof (induction r arbitrary: s g k x)
  case (Lit w)
  then show ?case by (auto split: if_splits)
next
  case (Cls p)
  then show ?case by (auto split: list.splits if_splits)
next
  case (Rep p n)
  from Rep have "greedy n (length (takeWhile p s)) s (\<lambda>s'. k s' g) = Some x" by simp
  from greedy_SomeD[OF this] obtain j where "k (drop j s) g = Some x" by blast
  then show ?case by blast
next
  case (Seq a b)
  from Seq.prems have "rmatch a s g (\<lambda>s' g'. rmatch b s' g' k) = Some x" by simp
  from Seq.IH(1)[OF this] obtain s1 g1 where
    1: "rmatch b s1 g1 k = Some x" "\<forall>i. i \<notin> grps a \<longrightarrow> g1 i = g i" by blast
  from Seq.IH(2)[OF 1(1)] obtain s2 g2 where
    2: "k s2 g2 = Some x" "\<forall>i. i \<notin> grps b \<longrightarrow> g2 i = g1 i" by blast
  from 1(2) 2 show ?case by (intro exI[of _ s2] exI[of _ g2]) auto
next
  case (Alt a b)
  show ?case
  proof (cases "rmatch a s g k")
    case None
    with Alt.prems have "rmatch b s g k = Some x" by simp
    from Alt.IH(2)[OF this] show ?thesis by auto
  next
    case (Some r)
    with Alt.prems have "rmatch a s g k = Some x" by simp
    from Alt.IH(1)[OF this] show ?thesis by auto
  qed
next
  case (Opt a)
  show ?case
  proof (cases "rmatch a s g k")
    case None
    with Opt.prems have "k s g = Some x" by simp
    then show ?thesis by auto
  next
    case (Some r)
    with Opt.prems have "rmatch a s g k = Some x" by simp
    from Opt.IH[OF this] show ?thesis by auto
  qed
next
  case (Grp j a)
  from Grp.prems
  have "rmatch a s g (\<lambda>s' g'. k s' (g'(j \<mapsto> take (length s - length s') s))) = Some x"
    by simp
  from Grp.IH[OF this] obtain s1 g1 where
    1: "k s1 (g1(j \<mapsto> take (length s - length s1) s)) = Some x"
       "\<forall>i. i \<notin> grps a \<longrightarrow> g1 i = g i" by blast
  have "\<forall>i. i \<notin> grps (Grp j a) \<longrightarrow> (g1(j \<mapsto> take (length s - length s1) s)) i = g i"
    using 1(2) by simp
  with 1(1) show ?case by blast
qed

lemma rmatch_Opt_total: "k s g \<noteq> None \<Longrightarrow> rmatch (Opt a) s g k \<noteq> None"
  by (auto split: option.splits)

lemma condition_part_cases:
  "rmatch condition_part s g (\<lambda>s' g. Some g) = Some g \<or>
   (\<exists>t. t \<noteq> [] \<and> rmatch condition_part s g (\<lambda>s' g. Some g) = Some (g(3 \<mapsto> CHR '';'' # t)))"
proof (cases "rmatch (Grp 3 (Seq (Lit '';'') (Rep any_char 1))) s g (\<lambda>s' g. Some g)")
  case None
  then show ?thesis by (simp add: condition_part_def)
next
  case (Some m)
  then have whole: "rmatch condition_part s g (\<lambda>s' g. Some g) = Some m"
    by (simp add: condition_part_def)
  from Some obtain r where s: "s = CHR '';'' # r" by (cases s) (auto split: if_splits)
  from Some s have "greedy 1 (length (takeWhile any_char r)) r
      (\<lambda>s'. Some (g(3 \<mapsto> take (length s - length s') s))) = Some m"
    by simp
  from greedy_SomeD[OF this] obtain j where j: "1 \<le> j" "j \<le> length (takeWhile any_char r)"
     "m = g(3 \<mapsto> take (length s - length (drop j r)) s)"
    by auto
  have jr: "j \<le> length r" using j(2) length_takeWhile_le[of any_char r] by linarith
  then have "take (length s - length (drop j r)) s = CHR '';'' # take j r"
    using s by simp
  moreover have "take j r \<noteq> []" using j(1) jr by (cases r) auto
  ultimately have "\<exists>t. t \<noteq> [] \<and> m = g(3 \<mapsto> CHR '';'' # t)" using j(3) by metis
  with whole show ?thesis by metis
qed

lemma version_part_cases:
  assumes "rmatch version_part s g k = Some x"
  shows "k s g = Some x \<or>
         (\<exists>s' c v. comparator_char c \<and> k s' (g(2 \<mapsto> c # v)) = Some x)"
proof (cases "rmatch (Grp 2 (Seq (Cls comparator_char) (Seq (Cls is_space) (Rep version_char 1)))) s g k")
  case None
  with assms show ?thesis by (simp add: version_part_def)
next
  case (Some m)
  with assms have mx: "m = x" by (simp add: version_part_def)
  from Some obtain c w r where s: "s = c # w # r" "comparator_char c"
    by (cases s; cases "tl s") (auto split: if_splits)
  from Some s mx have "greedy 1 (length (takeWhile version_char r)) r
      (\<lambda>s'. k s' (g(2 \<mapsto> take (length s - length s') s))) = Some x"
    by (simp split: if_splits)
  from greedy_SomeD[OF this] obtain j where
     j: "k (drop j r) (g(2 \<mapsto> take (length s - length (drop j r)) s)) = Some x"
    by auto
  have "0 < length s - length (drop j r)" using s by simp
  then obtain n where "length s - length (drop j r) = Suc n"
    by (cases "length s - length (drop j r)") auto
  then have "take (length s - length (drop j r)) s = c # take n (w # r)"
    using s by simp
  with j s(2) show ?thesis by metis
qed

lemma extras_part_cases:
  assumes "rmatch extras_part s g k = Some x"
  shows "\<exists>s'. k s' g = Some x"
  using rmatch_SomeD[OF assms] by (simp add: extras_part_def) (metis ext)

lemma dependency_tail_total:
  "rmatch (Seq extras_part (Seq version_part condition_part)) s g (\<lambda>s' g. Some g) \<noteq> None"
proof -
  have c: "\<And>s g. rmatch condition_part s g (\<lambda>s' g. Some g) \<noteq> None"
    unfolding condition_part_def by (rule rmatch_Opt_total) simp
  have v: "\<And>s g. rmatch version_part s g (\<lambda>s' g'. rmatch condition_part s' g' (\<lambda>s' g. Some g)) \<noteq> None"
    unfolding version_part_def by (rule rmatch_Opt_total) (rule c)
  show ?thesis
    unfolding rmatch.simps(4) extras_part_def by (rule rmatch_Opt_total) (rule v)
qed

text \<open>Every match of the pattern: what the three groups hold.\<close>

lemma dependency_pattern_match:
  "re_match dependency_pattern s =
     (if takeWhile name_char s = [] then None
      else rmatch (Seq extras_part (Seq version_part condition_part))
             (dropWhile name_char s) ((\<lambda>i. None)(1 \<mapsto> takeWhile name_char s)) (\<lambda>s' g. Some g))"
proof (cases "length (takeWhile name_char s)")
  case 0
  then show ?thesis by (simp add: re_match_def dependency_pattern_def)
next
  case (Suc n)
  let ?k = "\<lambda>s'. rmatch (Seq extras_part (Seq version_part condition_part)) s'
              ((\<lambda>i. None)(1 \<mapsto> take (length s - length s') s)) (\<lambda>s' g. Some g)"
  have le: "Suc n \<le> length s" using Suc length_takeWhile_le[of name_char s] by simp
  have tk: "take (Suc n) s = takeWhile name_char s" "drop (Suc n) s = dropWhile name_char s"
    using Suc takeWhile_eq_take[of name_char s] dropWhile_eq_drop[of name_char s] by simp_all
  have "take (length s - length (drop (Suc n) s)) s = take (Suc n) s"
    using le by simp
  then have "take (length s - length (drop (Suc n) s)) s = takeWhile name_char s"
    using tk(1) by simp
  then have "?k (drop (Suc n) s) = rmatch (Seq extras_part (Seq version_part condition_part))
      (dropWhile name_char s) ((\<lambda>i. None)(1 \<mapsto> takeWhile name_char s)) (\<lambda>s' g. Some g)"
    using tk by simp
  moreover obtain x where "?k (drop (Suc n) s) = Some x"
    using dependency_tail_total by blast
  ultimately have "greedy 1 (Suc n) s ?k = rmatch (Seq extras_part (Seq version_part condition_part))
      (dropWhile name_char s) ((\<lambda>i. None)(1 \<mapsto> takeWhile name_char s)) (\<lambda>s' g. Some g)"
    using greedy_first[of 1 "Suc n" ?k s x] by simp
  moreover have "re_match dependency_pattern s = greedy 1 (Suc n) s ?k"
    using Suc by (simp add: re_match_def dependency_pattern_def)
  moreover have "takeWhile name_char s \<noteq> []" using Suc by auto
  ultimately show ?thesis by simp
qed

lemma dependency_pattern_groups:
  assumes "re_match dependency_pattern s = Some m"
  shows "m 1 = Some (takeWhile name_char s)"
    and "m 2 = None \<or> (\<exists>c v. comparator_char c \<and> m 2 = Some (c # v))"
    and "m 3 = None \<or> (\<exists>t. t \<noteq> [] \<and> m 3 = Some (CHR '';'' # t))"
proof -
  let ?g1 = "(\<lambda>i. None)(1 \<mapsto> takeWhile name_char s)"
  let ?k0 = "\<lambda>(s'::string) (g::groups). Some g"
  from assms have "rmatch (Seq extras_part (Seq version_part condition_part))
             (dropWhile name_char s) ?g1 ?k0 = Some m"
    by (simp add: dependency_pattern_match split: if_splits)
  then have "rmatch extras_part (dropWhile name_char s) ?g1
       (\<lambda>s' g'. rmatch version_part s' g' (\<lambda>s' g'. rmatch condition_part s' g' ?k0)) = Some m"
    by simp
  from extras_part_cases[OF this] obtain s2 where
    "rmatch version_part s2 ?g1 (\<lambda>s' g'. rmatch condition_part s' g' ?k0) = Some m" by blast
  from version_part_cases[OF this] obtain s3 g3 where
    3: "rmatch condition_part s3 g3 ?k0 = Some m" "g3 1 = ?g1 1" "g3 3 = None"
       "g3 2 = None \<or> (\<exists>c v. comparator_char c \<and> g3 2 = Some (c # v))"
    by (elim disjE exE conjE) (fastforce+)
  have "m = g3 \<or> (\<exists>t. t \<noteq> [] \<and> m = g3(3 \<mapsto> CHR '';'' # t))"
    using condition_part_cases[of s3 g3] 3(1) by auto
  then show "m 1 = Some (takeWhile name_char s)"
    and "m 2 = None \<or> (\<exists>c v. comparator_char c \<and> m 2 = Some (c # v))"
    and "m 3 = None \<or> (\<exists>t. t \<noteq> [] \<and> m 3 = Some (CHR '';'' # t))"
    using 3(2,3,4) by auto
qed

lemma strip_leading_space: "is_space c \<Longrightarrow> strip (c # s) = strip s"
  by (simp add: strip_def)

lemma strip_keeps_head:
  assumes "\<not> is_space c"
  shows "\<exists>u. strip (c # r) = c # u"
proof -
  have "dropWhile is_space (rev r @ [c]) = dropWhile is_space (rev r) @ [c]"
    using assms by (simp add: dropWhile_append3)
  then show ?thesis using assms by (simp add: strip_def)
qed

lemma strip_idem: "strip (strip s) = strip s"
proof -
  define a where "a = dropWhile is_space s"
  define b where "b = dropWhile is_space (rev a)"
  have s: "strip s = rev b" by (simp add: strip_def a_def b_def)
  have "dropWhile is_space (rev b) = rev b"
  proof (cases b)
    case Nil
    then show ?thesis by simp
  next
    case (Cons y ys)
    have "rev a = takeWhile is_space (rev a) @ b" by (simp add: b_def)
    then have "a = rev b @ rev (takeWhile is_space (rev a))"
      by (metis rev_append rev_rev_ident)
    then have "hd a = hd (rev b)" using Cons by (metis Nil_is_rev_conv hd_append2 list.distinct(1))
    moreover have "a \<noteq> []" using \<open>a = rev b @ _\<close> Cons by auto
    then have "\<not> is_space (hd a)" unfolding a_def by (metis hd_dropWhile)
    ultimately have "\<not> is_space (hd (rev b))" by simp
    then show ?thesis using Cons by (cases "rev b") auto
  qed
  moreover have "dropWhile is_space b = b" by (simp add: b_def)
  ultimately show ?thesis by (simp add: s) (simp add: strip_def)
qed

section \<open>The splitter: claims\<close>

lemmas class_defs = code_def is_space_def is_digit_def is_word_def name_char_def extras_char_def
  comparator_char_def version_char_def any_char_def
lemmas pattern_defs = dependency_pattern_def extras_part_def version_part_def condition_part_def
lemmas splitter_defs = split_dependency_def dependency_groups_def re_match_def strip_def
  group_or_empty_def starts_with_name_def apostrophe_def

text \<open>
  C1. The spec expects \<open>split_dependency\<close> to return \<open>("pkg", "==1.0")\<close>, \<open>("pkg", ">=1.0")\<close>,
  \<open>("pkg", "Unknown")\<close> and, for the specifier with extras and an environment condition, a
  version holding the comparator clause and the condition. The pattern's version group is one
  comparator character, then one whitespace character, then the version text, and its
  condition group must follow the version group at once. So the code returns the version
  \<open>"Unknown"\<close> for all four specifiers; a version is only found in a text such as
  \<open>"pkg= 1.0"\<close>.
\<close>

theorem split_dependency_spec_examples:
  "split_dependency ''pkg==1.0'' = (''pkg'', ''Unknown'') \<and>
   split_dependency ''pkg>=1.0'' = (''pkg'', ''Unknown'') \<and>
   split_dependency ''pkg'' = (''pkg'', ''Unknown'') \<and>
   split_dependency (''pkg[extra]>=1.0; python_version>='' @ [apostrophe] @ ''3.8'' @ [apostrophe])
     = (''pkg'', ''Unknown'') \<and>
   split_dependency ''pkg= 1.0'' = (''pkg'', ''= 1.0'')"
  by (simp add: splitter_defs pattern_defs class_defs)

text \<open>
  C5, as stated: a specifier with no comparator clause has the version \<open>"Unknown"\<close>, also
  when it carries an environment condition. At \<open>"pkg; os_name"\<close> the comparator group takes
  no part in the match and the returned version is the condition clause.
\<close>

theorem condition_without_comparator_counterexample:
  "dependency_groups (strip ''pkg; os_name'') = Some (Some ''pkg'', None, Some ''; os_name'') \<and>
   snd (split_dependency ''pkg; os_name'') = ''; os_name'' \<and>
   snd (split_dependency ''pkg; os_name'') \<noteq> ''Unknown''"
  by (simp add: splitter_defs pattern_defs class_defs)

text \<open>
  C5, amended: when the comparator group takes no part in the match, the version is
  \<open>"Unknown"\<close> if the condition group takes no part either, and otherwise it is the condition
  clause with its surrounding whitespace removed, which begins with the semicolon.
\<close>

theorem version_without_comparator:
  assumes "dependency_groups (strip dep) = Some (p, None, c)"
  shows "snd (split_dependency dep) = (case c of None \<Rightarrow> ''Unknown'' | Some t \<Rightarrow> strip t) \<and>
         (case c of None \<Rightarrow> True | Some t \<Rightarrow> take 1 (strip t) = '';'')"
proof -
  from assms obtain m where m: "re_match dependency_pattern (strip dep) = Some m"
    "m 2 = None" "m 3 = c"
    by (auto simp: dependency_groups_def)
  show ?thesis
  proof (cases c)
    case None
    with m show ?thesis by (simp add: split_dependency_def group_or_empty_def strip_def)
  next
    case (Some t)
    with dependency_pattern_groups(3)[OF m(1)] m(3) obtain r where t: "t = CHR '';'' # r"
      by auto
    have "\<not> is_space CHR '';''" by (simp add: class_defs)
    from strip_keeps_head[OF this, of r] obtain u where u: "strip t = CHR '';'' # u"
      using t by auto
    have "strip ([] @ '' '' @ strip t) = strip t"
      by (simp add: strip_leading_space strip_idem is_space_def code_def)
    moreover have "strip [] = []" by (simp add: strip_def)
    ultimately have "split_dependency dep = (group_or_empty m 1, strip t)"
      using m Some u 
      by (simp add: split_dependency_def group_or_empty_def Let_def)
    with Some u show ?thesis by simp
  qed
qed

theorem version_without_comparator_witness:
  "dependency_groups (strip ''pkg; os_name'') = Some (Some ''pkg'', None, Some ''; os_name'') \<and>
   snd (split_dependency ''pkg; os_name'') = strip ''; os_name'' \<and>
   dependency_groups (strip ''pkg'') = Some (Some ''pkg'', None, None) \<and>
   snd (split_dependency ''pkg'') = ''Unknown''"
proof -
  have a: "dependency_groups (strip ''pkg; os_name'') = Some (Some ''pkg'', None, Some ''; os_name'')"
    by (simp add: splitter_defs pattern_defs class_defs)
  have b: "dependency_groups (strip ''pkg'') = Some (Some ''pkg'', None, None)"
    by (simp add: splitter_defs pattern_defs class_defs)
  show ?thesis
    using a b version_without_comparator[OF a] version_without_comparator[OF b] by simp
qed

lemma name_char_not_space: "name_char c \<Longrightarrow> \<not> is_space c"
proof -
  have "code CHR ''-'' = 45" by (simp add: code_def)
  then show "name_char c \<Longrightarrow> \<not> is_space c"
    by (auto simp: name_char_def is_word_def is_space_def Let_def)
qed

lemma starts_with_name_strip: "starts_with_name dep \<Longrightarrow> starts_with_name (strip dep)"
proof (cases dep)
  case Nil
  then show "starts_with_name dep \<Longrightarrow> ?thesis" by (simp add: starts_with_name_def)
next
  case (Cons c r)
  assume "starts_with_name dep"
  with Cons have "name_char c" by (simp add: starts_with_name_def)
  from strip_keeps_head[OF name_char_not_space[OF this], of r] Cons \<open>name_char c\<close>
  show ?thesis by (auto simp: starts_with_name_def)
qed

text \<open>
  C10. The match is a prefix match: a specifier that begins with a word character or
  hyphen still does so when stripped; the match fails exactly when the stripped specifier
  does not begin with a word character or hyphen, and then the specifier itself is returned as the
  package; otherwise the package is the longest leading run of word characters and hyphens
  of the stripped specifier. \<open>"pkg.name==1.0"\<close> gives the package \<open>"pkg"\<close> and the version
  \<open>"Unknown"\<close>; the empty specifier takes the fallback.
\<close>

theorem split_dependency_prefix_match:
  "(starts_with_name dep \<longrightarrow> starts_with_name (strip dep)) \<and>
   (re_match dependency_pattern (strip dep) = None) = (\<not> starts_with_name (strip dep)) \<and>
   fst (split_dependency dep) =
     (if starts_with_name (strip dep) then takeWhile name_char (strip dep) else dep) \<and>
   split_dependency ''pkg.name==1.0'' = (''pkg'', ''Unknown'') \<and>
   split_dependency [] = ([], ''Unknown'')"
proof -
  have sw: "starts_with_name s = (takeWhile name_char s \<noteq> [])" for s
    by (cases s) (auto simp: starts_with_name_def)
  have none: "(re_match dependency_pattern s = None) = (\<not> starts_with_name s)" for s
    using dependency_tail_total by (auto simp: dependency_pattern_match sw)
  have pkg: "fst (split_dependency dep) =
     (if starts_with_name (strip dep) then takeWhile name_char (strip dep) else dep)"
  proof (cases "re_match dependency_pattern (strip dep)")
    case None
    then show ?thesis using none[of "strip dep"] by (simp add: split_dependency_def)
  next
    case (Some m)
    then have "starts_with_name (strip dep)" using none[of "strip dep"] by auto
    then show ?thesis using Some dependency_pattern_groups(1)[OF Some]
      by (simp add: split_dependency_def group_or_empty_def Let_def)
  qed
  have ex: "split_dependency ''pkg.name==1.0'' = (''pkg'', ''Unknown'') \<and>
   split_dependency [] = ([], ''Unknown'')"
    by (simp add: splitter_defs pattern_defs class_defs)
  from none[of "strip dep"] pkg ex starts_with_name_strip[of dep] show ?thesis by blast
qed

theorem split_dependency_prefix_match_witness:
  "starts_with_name ''pkg.name==1.0'' \<and>
   starts_with_name (strip ''pkg.name==1.0'') \<and>
   re_match dependency_pattern (strip ''pkg.name==1.0'') \<noteq> None \<and>
   fst (split_dependency ''pkg.name==1.0'') = ''pkg'' \<and>
   \<not> starts_with_name (strip '' .x'') \<and>
   re_match dependency_pattern (strip '' .x'') = None \<and>
   fst (split_dependency '' .x'') = '' .x''"
  using split_dependency_prefix_match[of "''pkg.name==1.0''"]
        split_dependency_prefix_match[of "'' .x''"]
  by (simp add: strip_def starts_with_name_def class_defs)

section \<open>Properties of the usage analysis\<close>

lemma visit_imports_grow:
  "set (visitor_imports v) \<subseteq> set (visitor_imports (visit n v))"
  "set (visitor_imports v) \<subseteq> set (visitor_imports (visit_all ns v))"
proof (induction n v and ns v rule: visit_visit_all.induct)
  case (3 val attr lineno v)
  then show ?case by (cases val) auto
next
  case (4 func args kws v)
  then show ?case unfolding visit.simps by blast
next
  case (11 n ns v)
  then show ?case unfolding visit_all.simps by blast
qed auto

lemma visit_reaches_import_from:
  "ImportFrom module names lineno \<in> subnodes n \<Longrightarrow> name \<in> set names \<Longrightarrow>
     (format_module module @ ''.'' @ name, lineno) \<in> set (visitor_imports (visit n v))"
  "ImportFrom module names lineno \<in> (\<Union>c \<in> set ns. subnodes c) \<Longrightarrow> name \<in> set names \<Longrightarrow>
     (format_module module @ ''.'' @ name, lineno) \<in> set (visitor_imports (visit_all ns v))"
proof (induction n v and ns v rule: visit_visit_all.induct)
  case (2 m nms ln v)
  then show ?case by auto
next
  case (4 func args kws v)
  from 4(4) consider "ImportFrom module names lineno \<in> subnodes func"
    | "ImportFrom module names lineno \<in> (\<Union>c \<in> set args. subnodes c)"
    | "ImportFrom module names lineno \<in> (\<Union>c \<in> set kws. subnodes c)"
    by auto
  then show ?case
  proof cases
    case 1
    from 4(1)[OF 1 4(5)] show ?thesis
      using visit_imports_grow(2) unfolding visit.simps visit_all.simps by blast
  next
    case 2
    from 4(2)[OF 2 4(5)] show ?thesis
      using visit_imports_grow(2) unfolding visit.simps visit_all.simps by blast
  next
    case 3
    from 4(3)[OF 3 4(5)] show ?thesis by simp
  qed
next
  case (11 n ns v)
  from 11(3) consider "ImportFrom module names lineno \<in> subnodes n"
    | "ImportFrom module names lineno \<in> (\<Union>c \<in> set ns. subnodes c)"
    by auto
  then show ?case
  proof cases
    case 1
    from 11(1)[OF 1 11(4)] show ?thesis
      using visit_imports_grow(2) unfolding visit.simps visit_all.simps by blast
  next
    case 2
    from 11(2)[OF 2 11(4)] show ?thesis by simp
  qed
qed auto

text \<open>
  C9. A from-import whose module is absent (\<open>from . import X\<close>) adds, for each imported
  name, the import pair \<open>("None.X", line)\<close> to the visitor; and wherever such a statement
  stands in the tree that is visited, the pair is among the imports afterwards: the
  statement is neither skipped nor a failure.
\<close>

theorem relative_import_recorded:
  "visit (ImportFrom None names lineno) v =
     v\<lparr>visitor_imports := visitor_imports v @ map (\<lambda>name. (''None.'' @ name, lineno)) names\<rparr> \<and>
   (ImportFrom None names lineno \<in> subnodes tree \<and> name \<in> set names \<longrightarrow>
      (''None.'' @ name, lineno) \<in> set (visitor_imports (visit tree v)))"
  using visit_reaches_import_from(1)[of None names lineno tree name v] by simp

theorem relative_import_recorded_witness:
  "ImportFrom None [''X''] 1 \<in> subnodes (Node [ImportFrom None [''X''] 1]) \<and>
   ''X'' \<in> set [''X''] \<and>
   (''None.X'', 1) \<in> set (visitor_imports
      (visit (Node [ImportFrom None [''X''] 1]) \<lparr>visitor_imports = [], visitor_usage = []\<rparr>))"
  using relative_import_recorded[of "[''X'']" 1 "\<lparr>visitor_imports = [], visitor_usage = []\<rparr>"
          "Node [ImportFrom None [''X''] 1]" "''X''"]
  by simp












section \<open>Properties of the dependency extraction\<close>

text \<open>
  C2. The spec keeps a module exactly when it is not resolvable, so that a file with
  \<open>import os\<close> and \<open>import requests\<close> gives only \<open>requests\<close>. \<open>is_builtin_module\<close> is
  true for a name in the builtin table or for a name of which \<open>find_spec\<close> finds nothing;
  the scanner keeps the names for which it is false, which are the names that are not
  compiled in and that \<open>find_spec\<close> does find. So \<open>os\<close> is kept, and \<open>requests\<close> is kept only
  where it is installed.
\<close>

theorem scanner_keeps_located_modules:
  "is_builtin_module project_env ''os'' = Inr False \<and>
   is_builtin_module project_env ''requests'' = Inr True \<and>
   python_file_dependencies project_env ''proj'' ''Python'' = {(''proj/app.py'', ''os'', ''Python'')} \<and>
   python_file_dependencies installed_env ''proj'' ''Python'' =
     {(''proj/app.py'', ''os'', ''Python''), (''proj/app.py'', ''requests'', ''Python'')}"
  by code_simp

text \<open>
  C3, as stated: no parser lets an exception reach its caller. \<open>parse_setup_py\<close> has no
  handler: on the \<open>setup.py\<close> of the example, which does not parse, the call ends with
  the exception.
\<close>

theorem parse_setup_py_raises_counterexample:
  "find_file project_env ''proj'' ''setup.py'' = Some ''proj/setup.py'' \<and>
   parse_setup_py project_env ''proj/setup.py'' = Inl (ParseError ''invalid syntax'')"
  by code_simp

lemma parse_setup_py_raises:
  "(\<exists>x. parse_setup_py e p = Inl x) =
   (\<exists>x. open_and_read e p = Inl x \<or> (\<exists>text. open_and_read e p = Inr text \<and> ast_parse e text = Inl x))"
  by (cases "files e p"; cases "read_text (files e p)")
     (auto simp: parse_setup_py_def open_and_read_def split: sum.splits)

text \<open>
  C3, amended: the five parsers with a handler of their own return a list on every path
  in every environment; \<open>parse_setup_py\<close> raises exactly when the file cannot be opened,
  read or parsed; and in the aggregator an extractor that raises adds no record.
\<close>

theorem parsers_catch_except_setup_py:
  "(\<exists>ds. extract_pyproject_dependencies e p = Inr ds) \<and>
   (\<exists>ds. extract_poetry_lock_dependencies e p = Inr ds) \<and>
   (\<exists>ds. extract_pipfile_dependencies e p = Inr ds) \<and>
   (\<exists>ds. get_conda_dependencies e p = Inr ds) \<and>
   (\<exists>ds. get_pip_dependencies e p = Inr ds) \<and>
   ((\<exists>x. parse_setup_py e p = Inl x) =
    (\<exists>x. open_and_read e p = Inl x \<or>
         (\<exists>text. open_and_read e p = Inr text \<and> ast_parse e text = Inl x))) \<and>
   (find_file e root (fst entry) = Some p \<and> snd entry e p = Inl x \<longrightarrow>
      manifest_records e root entry = [])"
  using parse_setup_py_raises[of e p]
  by (simp add: extract_pyproject_dependencies_def extract_poetry_lock_dependencies_def
      extract_pipfile_dependencies_def get_conda_dependencies_def get_pip_dependencies_def
      except_return_def manifest_records_def)

theorem parsers_catch_except_setup_py_witness:
  "find_file project_env ''proj'' (fst (''setup.py'', parse_setup_py)) = Some ''proj/setup.py'' \<and>
   snd (''setup.py'', parse_setup_py) project_env ''proj/setup.py'' = Inl (ParseError ''invalid syntax'') \<and>
   manifest_records project_env ''proj'' (''setup.py'', parse_setup_py) = [] \<and>
   get_pip_dependencies project_env ''proj/requirements.txt'' =
     Inr [(''proj/requirements.txt'', PStr ''flask'', PStr ''2.0.1'')]"
proof -
  have h: "find_file project_env ''proj'' (fst (''setup.py'', parse_setup_py)) = Some ''proj/setup.py'' \<and>
   snd (''setup.py'', parse_setup_py) project_env ''proj/setup.py'' = Inl (ParseError ''invalid syntax'')"
    by code_simp
  have g: "get_pip_dependencies project_env ''proj/requirements.txt'' =
     Inr [(''proj/requirements.txt'', PStr ''flask'', PStr ''2.0.1'')]"
    by code_simp
  from parsers_catch_except_setup_py[of project_env "''proj/setup.py''" "''proj''"
      "(''setup.py'', parse_setup_py)" "ParseError ''invalid syntax''"] h g
  show ?thesis by blast
qed

lemma py_in_dict: "py_in key (PDict d) = Inr (map_of d (PStr key) \<noteq> None)"
  by (simp add: map_of_eq_None_iff)

lemma section_loop_table:
  assumes "absent_or_table d key"
  shows "section_loop e p (PDict d) (key # rest) deps =
           section_loop e p (PDict d) rest (deps @ map (entry_dependency e p) (table_entries d key))"
proof (cases "map_of d (PStr key)")
  case None
  then show ?thesis
    by (simp add: py_in_dict attempt_def table_entries_def del: py_in.simps)
next
  case (Some v)
  with assms obtain entries where "v = PDict entries"
    by (cases v) (auto simp: absent_or_table_def)
  with Some show ?thesis
    by (simp add: py_in_dict attempt_def table_entries_def del: py_in.simps)
qed

lemma specifier_loop_strings:
  "specifier_loop p (map PStr specs) deps = (None, deps @ map (specifier_record p) specs)"
  by (induction specs arbitrary: deps) (auto simp: attempt_def specifier_record_def)

text \<open>
  The branches themselves give the poetry table precedence: on a document with a table
  \<open>tool.poetry\<close> they yield the entries of its two sections and nothing of
  \<open>project.dependencies\<close>, and they read the standard list when there is no \<open>tool.poetry\<close>.
\<close>

lemma pyproject_branches_poetry:
  assumes "map_of doc (PStr ''tool'') = Some (PDict tool)"
    and "map_of tool (PStr ''poetry'') = Some (PDict poetry)"
    and "absent_or_table poetry ''dependencies''" and "absent_or_table poetry ''dev-dependencies''"
  shows "pyproject_branches e p (PDict doc) =
           (None, map (entry_dependency e p)
                    (table_entries poetry ''dependencies'' @ table_entries poetry ''dev-dependencies''))"
proof -
  have nested: "has_nested (PDict doc) ''tool'' ''poetry'' = Inr True"
    "get_nested (PDict doc) ''tool'' ''poetry'' = Inr (PDict poetry)"
    using assms by (simp_all add: has_nested_def get_nested_def py_in_dict del: py_in.simps)
  have "section_loop e p (PDict poetry) [''dependencies'', ''dev-dependencies''] [] =
      (None, map (entry_dependency e p)
                 (table_entries poetry ''dependencies'' @ table_entries poetry ''dev-dependencies''))"
    using assms by (simp add: section_loop_table del: section_loop.simps(2))
  with nested show ?thesis
    by (simp add: pyproject_branches_def attempt_def)
qed

lemma pyproject_branches_standard:
  assumes "has_nested (PDict doc) ''tool'' ''poetry'' = Inr False"
    and "map_of doc (PStr ''project'') = Some (PDict project)"
    and "map_of project (PStr ''dependencies'') = Some (PList (map PStr specs))"
  shows "pyproject_branches e p (PDict doc) = (None, map (specifier_record p) specs)"
proof -
  have std: "has_nested (PDict doc) ''project'' ''dependencies'' = Inr True"
    "get_nested (PDict doc) ''project'' ''dependencies'' = Inr (PList (map PStr specs))"
    using assms by (simp_all add: has_nested_def get_nested_def py_in_dict del: py_in.simps)
  with assms(1) show ?thesis
    by (simp add: pyproject_branches_def attempt_def specifier_loop_strings)
qed

lemma pyproject_branches_examples:
  "pyproject_branches project_env ''proj/pyproject.toml'' both_tables =
     (None, [(''proj/pyproject.toml'', PStr ''requests'', PStr ''Unknown''),
             (''proj/pyproject.toml'', PStr ''pytest'', PStr ''Unknown'')]) \<and>
   pyproject_branches project_env ''proj/pyproject.toml'' standard_only =
     (None, [(''proj/pyproject.toml'', PStr ''numpy'', PStr ''= 1.26''),
             (''proj/pyproject.toml'', PStr ''rich'', PStr ''Unknown'')])"
  by code_simp

text \<open>
  C7. The spec has the parser return the entries of the poetry table when a file holds both
  that table and a standard list. \<open>extract_pyproject_dependencies\<close> calls \<open>toml.load\<close> on the
  path string; the call raises before any document is read, the handler prints the
  exception, and the parser returns the empty list, for every path and every file.
\<close>

theorem pyproject_load_raises:
  "toml_load (Path pyproject_path) = Inl (AttributeError ''str object has no attribute read'') \<and>
   pyproject_try e pyproject_path = (Some (AttributeError ''str object has no attribute read''), []) \<and>
   extract_pyproject_dependencies e pyproject_path = Inr [] \<and>
   extract_pyproject_dependencies project_env ''proj/pyproject.toml'' = Inr []"
  by (simp add: extract_pyproject_dependencies_def pyproject_try_def attempt_def except_return_def)

lemma finite_scan_lines:
  "finite deps \<Longrightarrow> finite (snd (scan_lines e file_path python_version ls deps))"
proof (induction ls arbitrary: deps)
  case Nil
  then show ?case by simp
next
  case (Cons l rest)
  show ?case
  proof (cases "re_match import_pattern l")
    case None
    with Cons show ?thesis by simp
  next
    case (Some m)
    show ?thesis
    proof (cases "is_builtin_module e (first_segment (group_or_empty m 1))")
      case (Inl x)
      with Some Cons.prems show ?thesis by (simp add: attempt_def)
    next
      case (Inr builtin)
      show ?thesis
      proof (cases builtin)
        case True
        from Cons.IH[OF Cons.prems] Some Inr True show ?thesis by (simp add: attempt_def)
      next
        case False
        have "finite (insert (file_path, first_segment (group_or_empty m 1), python_version) deps)"
          using Cons.prems by simp
        from Cons.IH[OF this] Some Inr False show ?thesis by (simp add: attempt_def)
      qed
    qed
  qed
qed

lemma finite_scan_file:
  assumes "finite deps"
  shows "finite (scan_file e python_version root f deps)"
proof (cases "endswith f ''.py''")
  case False
  with assms show ?thesis by (simp add: scan_file_def)
next
  case True
  show ?thesis
  proof (cases "files e (join e root f)")
    case (Unopenable x)
    with True assms show ?thesis by (simp add: scan_file_def)
  next
    case (Readable ls err)
    with True finite_scan_lines[OF assms, of e "join e root f" python_version ls]
    show ?thesis by (simp add: scan_file_def)
  qed
qed

lemma finite_scan_files:
  "finite deps \<Longrightarrow> finite (scan_files e python_version root fs deps)"
proof (induction fs arbitrary: deps)
  case Nil
  then show ?case by simp
next
  case (Cons f rest)
  from Cons.IH[OF finite_scan_file[OF Cons.prems]] show ?case by simp
qed

lemma finite_scan_dirs:
  "finite deps \<Longrightarrow> finite (scan_dirs e python_version ds deps)"
proof (induction ds arbitrary: deps)
  case Nil
  then show ?case by simp
next
  case (Cons d rest)
  obtain root fs where d: "d = (root, fs)" by (cases d)
  from Cons.IH[OF finite_scan_files[OF Cons.prems]] d show ?case by simp
qed

lemma finite_python_file_dependencies:
  "finite (python_file_dependencies e project_path python_version)"
  unfolding python_file_dependencies_def by (rule finite_scan_dirs) simp

lemma inj_on_inline_record: "inj_on inline_record A"
  by (rule inj_onI) (auto simp: inline_record_def)

lemma distinct_small_eq:
  assumes "set xs = set ys" "distinct xs" "distinct ys" "card (set xs) \<le> 1"
  shows "xs = ys"
proof -
  have lx: "length xs \<le> 1" using assms(2,4) by (simp add: distinct_card)
  have ly: "length ys \<le> 1" using assms(1,3,4) by (simp add: distinct_card)
  show ?thesis
  proof (cases xs)
    case Nil
    with assms(1) show ?thesis by simp
  next
    case (Cons x xs')
    with lx have xs: "xs = [x]" by simp
    with assms(1) ly obtain y where "ys = [y]" by (cases ys) auto
    with xs assms(1) show ?thesis by simp
  qed
qed

lemma lists_sets_ascending: "lists_sets ascending"
  unfolding lists_sets_def enumerates_def ascending_def by simp

lemma lists_sets_descending: "lists_sets descending"
  unfolding lists_sets_def enumerates_def descending_def by simp

text \<open>
  C8, as stated: two runs on the same tree give the same sequence. With two imports kept,
  two runs whose sets are listed in different orders differ in the inline part.
\<close>

theorem inline_order_counterexample:
  "lists_sets ascending \<and> lists_sets descending \<and>
   extract_project_dependencies installed_env ascending ''proj'' =
     [(''proj/requirements.txt'', PStr ''flask'', PStr ''2.0.1''),
      (''proj/app.py'', PStr ''os'', PStr ''Python''),
      (''proj/app.py'', PStr ''requests'', PStr ''Python'')] \<and>
   extract_project_dependencies installed_env descending ''proj'' =
     [(''proj/requirements.txt'', PStr ''flask'', PStr ''2.0.1''),
      (''proj/app.py'', PStr ''requests'', PStr ''Python''),
      (''proj/app.py'', PStr ''os'', PStr ''Python'')] \<and>
   extract_project_dependencies installed_env ascending ''proj'' \<noteq>
     extract_project_dependencies installed_env descending ''proj''"
proof -
  have a: "extract_project_dependencies installed_env ascending ''proj'' =
     [(''proj/requirements.txt'', PStr ''flask'', PStr ''2.0.1''),
      (''proj/app.py'', PStr ''os'', PStr ''Python''),
      (''proj/app.py'', PStr ''requests'', PStr ''Python'')]"
    by code_simp
  have d: "extract_project_dependencies installed_env descending ''proj'' =
     [(''proj/requirements.txt'', PStr ''flask'', PStr ''2.0.1''),
      (''proj/app.py'', PStr ''requests'', PStr ''Python''),
      (''proj/app.py'', PStr ''os'', PStr ''Python'')]"
    by code_simp
  have n: "extract_project_dependencies installed_env ascending ''proj'' \<noteq>
     extract_project_dependencies installed_env descending ''proj''"
    unfolding a d by simp
  show ?thesis
    by (intro conjI) (rule lists_sets_ascending lists_sets_descending a d n)+
qed

text \<open>
  C8, amended: two runs on the same tree and interpreter give the same manifest records in
  the same order, followed by the records of the same finite set of inline triples, each
  exactly once, in the order in which each run lists its set; the two sequences are equal
  when the scan keeps at most one triple.
\<close>

theorem runs_differ_only_in_inline_order:
  assumes "lists_sets listing1" and "lists_sets listing2"
  shows "\<exists>manifest inline1 inline2.
           extract_project_dependencies e listing1 project_path = manifest @ inline1 \<and>
           extract_project_dependencies e listing2 project_path = manifest @ inline2 \<and>
           manifest = manifest_loop e project_path dependency_files [] \<and>
           set inline1 = inline_record ` python_file_dependencies e project_path ''Python'' \<and>
           set inline2 = inline_record ` python_file_dependencies e project_path ''Python'' \<and>
           distinct inline1 \<and> distinct inline2 \<and> mset inline1 = mset inline2 \<and>
           (card (python_file_dependencies e project_path ''Python'') \<le> 1 \<longrightarrow> inline1 = inline2)"
proof -
  define S where "S = python_file_dependencies e project_path ''Python''"
  define i1 where "i1 = map inline_record (listing1 S)"
  define i2 where "i2 = map inline_record (listing2 S)"
  have fin: "finite S" unfolding S_def by (rule finite_python_file_dependencies)
  have l1: "set (listing1 S) = S" "distinct (listing1 S)"
    using assms(1) fin unfolding lists_sets_def enumerates_def by blast+
  have l2: "set (listing2 S) = S" "distinct (listing2 S)"
    using assms(2) fin unfolding lists_sets_def enumerates_def by blast+
  have s1: "set i1 = inline_record ` S" unfolding i1_def using l1(1) by simp
  have s2: "set i2 = inline_record ` S" unfolding i2_def using l2(1) by simp
  have d1: "distinct i1" unfolding i1_def using l1(2) inj_on_inline_record
    by (simp add: distinct_map)
  have d2: "distinct i2" unfolding i2_def using l2(2) inj_on_inline_record
    by (simp add: distinct_map)
  have "set i1 = set i2" using s1 s2 by simp
  then have m: "mset i1 = mset i2"
    using d1 d2 set_eq_iff_mset_eq_distinct[of i1 i2] by blast
  have small: "card S \<le> 1 \<longrightarrow> i1 = i2"
  proof
    assume c: "card S \<le> 1"
    have "listing1 S = listing2 S"
    proof (rule distinct_small_eq)
      show "set (listing1 S) = set (listing2 S)" using l1(1) l2(1) by simp
      show "distinct (listing1 S)" by (rule l1(2))
      show "distinct (listing2 S)" by (rule l2(2))
      show "card (set (listing1 S)) \<le> 1" using c l1(1) by simp
    qed
    then show "i1 = i2" unfolding i1_def i2_def by simp
  qed
  have r1: "extract_project_dependencies e listing1 project_path =
      manifest_loop e project_path dependency_files [] @ i1"
    unfolding extract_project_dependencies_def extract_python_file_dependencies_def i1_def S_def
    by (rule refl)
  have r2: "extract_project_dependencies e listing2 project_path =
      manifest_loop e project_path dependency_files [] @ i2"
    unfolding extract_project_dependencies_def extract_python_file_dependencies_def i2_def S_def
    by (rule refl)
  have "extract_project_dependencies e listing1 project_path =
          manifest_loop e project_path dependency_files [] @ i1 \<and>
        extract_project_dependencies e listing2 project_path =
          manifest_loop e project_path dependency_files [] @ i2 \<and>
        manifest_loop e project_path dependency_files [] =
          manifest_loop e project_path dependency_files [] \<and>
        set i1 = inline_record ` S \<and> set i2 = inline_record ` S \<and>
        distinct i1 \<and> distinct i2 \<and> mset i1 = mset i2 \<and> (card S \<le> 1 \<longrightarrow> i1 = i2)"
    using r1 r2 s1 s2 d1 d2 m small by (intro conjI) (rule refl | assumption)+
  then show ?thesis unfolding S_def by (intro exI)
qed

theorem runs_differ_only_in_inline_order_witness:
  "lists_sets ascending \<and> lists_sets descending \<and>
   card (python_file_dependencies project_env ''proj'' ''Python'') \<le> 1 \<and>
   extract_project_dependencies project_env ascending ''proj'' =
     extract_project_dependencies project_env descending ''proj'' \<and>
   (\<exists>manifest inline1 inline2.
      extract_project_dependencies installed_env ascending ''proj'' = manifest @ inline1 \<and>
      extract_project_dependencies installed_env descending ''proj'' = manifest @ inline2 \<and>
      manifest = manifest_loop installed_env ''proj'' dependency_files [] \<and>
      set inline1 = inline_record ` python_file_dependencies installed_env ''proj'' ''Python'' \<and>
      set inline2 = inline_record ` python_file_dependencies installed_env ''proj'' ''Python'' \<and>
      distinct inline1 \<and> distinct inline2 \<and> mset inline1 = mset inline2 \<and>
      (card (python_file_dependencies installed_env ''proj'' ''Python'') \<le> 1 \<longrightarrow> inline1 = inline2))"
proof -
  have c: "card (python_file_dependencies project_env ''proj'' ''Python'') \<le> 1"
    by code_simp
  from runs_differ_only_in_inline_order[OF lists_sets_ascending lists_sets_descending,
      of project_env "''proj''"]
  obtain manifest inline1 inline2 where
    r: "extract_project_dependencies project_env ascending ''proj'' = manifest @ inline1"
       "extract_project_dependencies project_env descending ''proj'' = manifest @ inline2"
       "card (python_file_dependencies project_env ''proj'' ''Python'') \<le> 1 \<longrightarrow> inline1 = inline2"
    by (elim exE conjE)
  from r(3) c have "inline1 = inline2" by (rule mp)
  with r(1,2) have same: "extract_project_dependencies project_env ascending ''proj'' =
     extract_project_dependencies project_env descending ''proj''"
    by simp
  note two = runs_differ_only_in_inline_order[OF lists_sets_ascending lists_sets_descending,
      of installed_env "''proj''"]
  show ?thesis
    by (intro conjI) (rule lists_sets_ascending lists_sets_descending c same two)+
qed


end
